theory Spec2Isabelle
  imports Main "HOL-Library.AList" "HOL-Library.Sublist"
begin

section \<open>Data model\<close>

text \<open>
  The tools talk to GitHub through a client library.  The objects they receive are
  modelled by the attributes the code reads: a repository by \<open>name\<close> and \<open>full_name\<close>,
  a team by \<open>name\<close> and the repositories \<open>get_repos()\<close> enumerates, an organization by
  \<open>login\<close>, a fork by \<open>full_name\<close> and \<open>created_at\<close>.  Time stamps are integers; only
  their order is used.
\<close>

type_synonym time = int

record repo =
  repo_name :: string
  full_name :: string

record team =
  team_name :: string
  team_repos :: "repo list"

record org =
  login :: string

record fork =
  fork_full_name :: string
  created_at :: time

text \<open>
  The payload \<open>e.data\<close> of a \<open>GithubException\<close> is a dictionary; the handler of
  \<open>create_teams\<close> reads the keys \<open>'message'\<close> and \<open>'errors'\<close>, and the key \<open>'message'\<close>
  of every element of \<open>'errors'\<close>.  A missing key is \<open>None\<close>.
\<close>

record gh_data =
  message :: "string option"
  errors :: "string option list option"

datatype exn =
    KeyError string
  | ValueError
  | StopIteration
  | UnboundLocalError
  | GithubException int gh_data
  | OtherError string

datatype outcome = Returned | Exit int | Raised exn

text \<open>
  What a run does that can be observed from outside: the messages passed to \<open>error\<close>
  and \<open>warn\<close>, and the two requests that change the destination organization.
  \<open>Warn r c\<close> stands for the only warning of the tool,
  \<open>fork of r already exists, created_at c\<close>.  The output of \<open>debug\<close> is not recorded,
  but the argument of a \<open>debug\<close> call is evaluated where its evaluation can raise.
\<close>

datatype event =
    Err string
  | Warn string time
  | ForkRequest org repo
  | TeamRequest org string "string list option"

text \<open>
  The remote service and the clock, over a state \<open>'w\<close> that the tool cannot see.
  Reading calls return what the state holds; \<open>create_fork\<close> and \<open>create_team\<close> either
  return an object or raise, and change the state.  \<open>validate_org\<close> (from
  \<open>codekit.codetools\<close>) is a parameter: \<open>Some e\<close> when it rejects the destination.
\<close>

record 'w api =
  validate_org :: "string \<Rightarrow> exn option"
  get_organization :: "string \<Rightarrow> org"
  now :: "'w \<Rightarrow> time \<times> 'w"
  org_get_teams :: "'w \<Rightarrow> org \<Rightarrow> team list"
  repo_get_teams :: "'w \<Rightarrow> repo \<Rightarrow> team list"
  org_create_fork :: "'w \<Rightarrow> org \<Rightarrow> repo \<Rightarrow> (exn + fork) \<times> 'w"
  org_create_team :: "'w \<Rightarrow> org \<Rightarrow> string \<Rightarrow> string list option \<Rightarrow> (exn + team) \<times> 'w"

text \<open>The parsed command line of \<open>github-fork-repos\<close> (the options the run reads).\<close>

record args =
  args_src_org :: string
  args_dst_org :: string
  args_team :: "string list"
  args_limit :: "int option"
  args_copy_teams :: bool

text \<open>The parsed command line of \<open>github_list_repos\<close>.\<close>

record opt =
  opt_organisation :: string
  opt_teams :: bool
  opt_hide :: "string option"

section \<open>Python library functions\<close>

text \<open>
  \<open>hay.startswith(needle)\<close> and \<open>needle in hay\<close> on strings; the latter is what the
  tool uses, on messages and on team names.
\<close>

fun startswith :: "string \<Rightarrow> string \<Rightarrow> bool" where
  "startswith hay [] = True"
| "startswith [] (c # cs) = False"
| "startswith (d # ds) (c # cs) = (d = c \<and> startswith ds cs)"

fun str_in :: "string \<Rightarrow> string \<Rightarrow> bool" where
  "str_in needle [] = (needle = [])"
| "str_in needle (c # cs) = (startswith (c # cs) needle \<or> str_in needle cs)"

text \<open>
  \<open>str.format\<close> with named fields: a format string is a list of literal pieces and
  fields; a field whose name is not among the keyword arguments raises \<open>KeyError\<close>.
\<close>

datatype seg = Lit string | Fld string

fun format :: "seg list \<Rightarrow> (string \<times> string) list \<Rightarrow> exn + string" where
  "format [] kw = Inr []"
| "format (Lit s # segs) kw =
     (case format segs kw of Inl e \<Rightarrow> Inl e | Inr t \<Rightarrow> Inr (s @ t))"
| "format (Fld k # segs) kw =
     (case map_of kw k of
        None \<Rightarrow> Inl (KeyError k)
      | Some v \<Rightarrow> (case format segs kw of Inl e \<Rightarrow> Inl e | Inr t \<Rightarrow> Inr (v @ t)))"

text \<open>\<open>sep.join(xs)\<close>.\<close>

fun join :: "string \<Rightarrow> string list \<Rightarrow> string" where
  "join sep [] = []"
| "join sep [x] = x"
| "join sep (x # y # ys) = x @ sep @ join sep (y # ys)"

text \<open>
  \<open>itertools.islice(it, stop)\<close>, consumed by \<open>list\<close>: \<open>None\<close> takes everything, a
  stop outside \<open>0 .. sys.maxsize\<close> raises \<open>ValueError\<close>.  \<open>sys.maxsize\<close> is that of a
  64-bit CPython.
\<close>

definition sys_maxsize :: int where
  "sys_maxsize = 2 ^ 63 - 1"

definition islice :: "'a list \<Rightarrow> int option \<Rightarrow> exn + 'a list" where
  "islice it stop =
     (case stop of
        None \<Rightarrow> Inr it
      | Some n \<Rightarrow> if 0 \<le> n \<and> n \<le> sys_maxsize then Inr (take (nat n) it) else Inl ValueError)"

text \<open>\<open>next(x for x in xs if p(x))\<close>: the first element that passes, or \<open>StopIteration\<close>.\<close>

definition next_where :: "('a \<Rightarrow> bool) \<Rightarrow> 'a list \<Rightarrow> exn + 'a" where
  "next_where p xs = (case find p xs of None \<Rightarrow> Inl StopIteration | Some x \<Rightarrow> Inr x)"

section \<open>github-fork-repos\<close>

subsection \<open>find_teams_by_repos\<close>

text \<open>\<open>len(max([r.full_name for r in src_repos], key=len))\<close>; \<open>max\<close> of nothing raises.\<close>

definition max_name_len :: "repo list \<Rightarrow> exn + nat" where
  "max_name_len src_repos =
     (if src_repos = [] then Inl ValueError
      else Inr (fold max (map (\<lambda>r. length (full_name r)) src_repos) 0))"

text \<open>
  A dictionary is an association list in insertion order; assigning to a key that is
  present replaces its value in place (\<open>AList.update\<close>).  The value stored for a
  repository is the pair of \<open>'repo'\<close> and \<open>'teams'\<close>.
\<close>

type_synonym src_rt = "(string \<times> repo \<times> team list) list"

definition find_teams_by_repos :: "'w api \<Rightarrow> 'w \<Rightarrow> repo list \<Rightarrow> exn + src_rt" where
  "find_teams_by_repos api w src_repos =
     (case max_name_len src_repos of
        Inl e \<Rightarrow> Inl e
      | Inr max_len \<Rightarrow>
          Inr (fold (\<lambda>r src_rt. AList.update (full_name r) (r, repo_get_teams api w r) src_rt)
                 src_repos []))"

subsection \<open>find_used_teams\<close>

type_synonym used_teams = "(string \<times> repo list) list"

definition add_used :: "repo \<Rightarrow> string \<Rightarrow> used_teams \<Rightarrow> used_teams" where
  "add_used r name used_teams =
     (case map_of used_teams name of
        None \<Rightarrow> AList.update name [r] used_teams
      | Some rs \<Rightarrow> AList.update name (rs @ [r]) used_teams)"

definition find_used_teams :: "src_rt \<Rightarrow> used_teams" where
  "find_used_teams src_rt =
     fold (\<lambda>(k, r, tms) used_teams. fold (add_used r) (map team_name tms) used_teams)
       src_rt []"

subsection \<open>create_forks\<close>

fun create_forks :: "'w api \<Rightarrow> 'w \<Rightarrow> org \<Rightarrow> repo list \<Rightarrow> event list \<times> outcome \<times> 'w" where
  "create_forks api w dst [] = ([], Returned, w)"
| "create_forks api w dst (r # rs) =
     (let (t, w1) = now api w;
          (reply, w2) = org_create_fork api w1 dst r
      in case reply of
           Inl e \<Rightarrow> ([ForkRequest dst r], Raised e, w2)
         | Inr fk \<Rightarrow>
             (let (tr, out, w3) = create_forks api w2 dst rs
              in (ForkRequest dst r #
                    (if created_at fk < t then [Warn (fork_full_name fk) (created_at fk)] else [])
                    @ tr,
                  out, w3)))"

subsection \<open>create_teams\<close>

abbreviation sq :: string where
  "sq \<equiv> [CHR 0x27]"

text \<open>
  The loop of the handler over \<open>e.data['errors']\<close> (lines 142 to 149): every message
  is logged, and the first one that is not tolerated raises the caught exception \<open>e\<close>
  again.  It yields the messages logged and the exception that leaves the loop, if any.
\<close>

fun check_errors :: "bool \<Rightarrow> exn \<Rightarrow> string option list \<Rightarrow> event list \<times> exn option" where
  "check_errors ignore_existing e [] = ([], None)"
| "check_errors ignore_existing e (oops # rest) =
     (case oops of
        None \<Rightarrow> ([], Some (KeyError ''message''))
      | Some msg \<Rightarrow>
          if \<not> (ignore_existing \<and> str_in ''Name has already been taken'' msg)
          then ([Err (''    '' @ msg)], Some e)
          else (let (tr, res) = check_errors ignore_existing e rest
                in (Err (''    '' @ msg) # tr, res)))"

text \<open>
  The \<open>except github.GithubException as e\<close> block (lines 140 to 151), entered in the
  state \<open>w\<close> the failed request left: it ends with the team that is reused or with the
  exception that leaves it.
\<close>

definition handle_create_error ::
  "'w api \<Rightarrow> 'w \<Rightarrow> org \<Rightarrow> bool \<Rightarrow> string \<Rightarrow> exn \<Rightarrow> gh_data \<Rightarrow> event list \<times> (exn + team)" where
  "handle_create_error api w org ignore_existing name e d =
     (case message d of
        None \<Rightarrow> ([], Inl (KeyError ''message''))
      | Some m \<Rightarrow>
          (case errors d of
             None \<Rightarrow> ([Err (''  '' @ m)], Inl (KeyError ''errors''))
           | Some errs \<Rightarrow>
               (case check_errors ignore_existing e errs of
                  (tr, Some x) \<Rightarrow> (Err (''  '' @ m) # tr, Inl x)
                | (tr, None) \<Rightarrow>
                    (Err (''  '' @ m) # tr,
                     next_where (\<lambda>t. str_in (team_name t) name) (org_get_teams api w org)))))"

type_synonym dst_teams = "(string \<times> team) list"

text \<open>
  One iteration of the loop of \<open>create_teams\<close> after its \<open>debug\<close> call (lines 130 to
  153): the request, the handler when the request raises a \<open>GithubException\<close>, and the
  assignment to \<open>dst_teams\<close>.
\<close>

definition create_teams_step ::
  "'w api \<Rightarrow> 'w \<Rightarrow> org \<Rightarrow> bool \<Rightarrow> bool \<Rightarrow> string \<Rightarrow> repo list \<Rightarrow> dst_teams
     \<Rightarrow> event list \<times> (exn + dst_teams) \<times> 'w" where
  "create_teams_step api w org with_repos ignore_existing name repos dst_teams =
     (let repo_names =
            (if with_repos then Some (map (\<lambda>r. login org @ ''/'' @ repo_name r) repos)
             else None);
          (reply, w1) = org_create_team api w org name repo_names;
          (tr, found) =
            (case reply of
               Inr dst_t \<Rightarrow> ([], Inr dst_t)
             | Inl (GithubException st d) \<Rightarrow>
                 handle_create_error api w1 org ignore_existing name (GithubException st d) d
             | Inl e \<Rightarrow> ([], Inl e))
      in case found of
           Inl e \<Rightarrow> (TeamRequest org name repo_names # tr, Inl e, w1)
         | Inr dst_t \<Rightarrow>
             (TeamRequest org name repo_names # tr,
              Inr (AList.update (team_name dst_t) dst_t dst_teams), w1))"

text \<open>
  The argument of the \<open>debug\<close> call that opens every iteration (lines 125 to 128):
  the format string names the fields \<open>o\<close> and \<open>t\<close>, the keyword arguments are
  \<open>org\<close> and \<open>t\<close>.  Python evaluates the argument before it calls \<open>debug\<close>.  Every
  other \<open>format\<close> call of the tool passes the fields its string names, so it cannot
  raise, and the messages of \<open>error\<close> are written out as the strings they produce.
\<close>

definition creating_team_msg :: "org \<Rightarrow> string \<Rightarrow> exn + string" where
  "creating_team_msg org name =
     format [Lit ''creating team '', Fld ''o'', Lit ''/'', Lit sq, Fld ''t'', Lit sq]
       [(''org'', login org), (''t'', name)]"

fun create_teams_loop ::
  "'w api \<Rightarrow> 'w \<Rightarrow> org \<Rightarrow> bool \<Rightarrow> bool \<Rightarrow> used_teams \<Rightarrow> dst_teams
     \<Rightarrow> event list \<times> (exn + dst_teams) \<times> 'w" where
  "create_teams_loop api w org with_repos ignore_existing [] dst_teams =
     ([], Inr dst_teams, w)"
| "create_teams_loop api w org with_repos ignore_existing ((name, repos) # rest) dst_teams =
     (case creating_team_msg org name of
        Inl e \<Rightarrow> ([], Inl e, w)
      | Inr dbg \<Rightarrow>
          (case create_teams_step api w org with_repos ignore_existing name repos dst_teams of
             (tr, Inl e, w1) \<Rightarrow> (tr, Inl e, w1)
           | (tr, Inr dst_teams1, w1) \<Rightarrow>
               (let (tr2, res, w2) =
                      create_teams_loop api w1 org with_repos ignore_existing rest dst_teams1
                in (tr @ tr2, res, w2))))"

definition create_teams ::
  "'w api \<Rightarrow> 'w \<Rightarrow> org \<Rightarrow> used_teams \<Rightarrow> bool \<Rightarrow> bool \<Rightarrow> event list \<times> (exn + dst_teams) \<times> 'w" where
  "create_teams api w org tms with_repos ignore_existing =
     create_teams_loop api w org with_repos ignore_existing tms []"

subsection \<open>Selecting the repositories\<close>

text \<open>Enumeration without repetition: every element at its first occurrence.\<close>

fun uniq_from :: "'a list \<Rightarrow> 'a list \<Rightarrow> 'a list" where
  "uniq_from seen [] = []"
| "uniq_from seen (x # xs) =
     (if x \<in> set seen then uniq_from seen xs else x # uniq_from (x # seen) xs)"

text \<open>
  Modelled from the spec: \<open>get_repos_by_team\<close> of \<open>codekit.pygithub\<close>, which \<open>main\<close>
  calls and which is not among the sources.  The spec: ``enumerate the (deduplicated)
  union of repositories belonging to the kept teams''.
\<close>

definition get_repos_by_team :: "team list \<Rightarrow> repo list" where
  "get_repos_by_team tms = uniq_from [] (concat (map team_repos tms))"

text \<open>
  Lines 207 to 216 of \<open>main\<close>.  The \<open>else\<close> branch reads \<open>fork_teams\<close>, which has not
  been assigned there.
\<close>

definition select_repos :: "'w api \<Rightarrow> 'w \<Rightarrow> org \<Rightarrow> args \<Rightarrow> exn + repo list" where
  "select_repos api w src a =
     (if args_team a \<noteq> [] then
        (let fork_teams =
               filter (\<lambda>t. team_name t \<in> set (args_team a)) (org_get_teams api w src);
             repos = get_repos_by_team fork_teams
         in islice repos (args_limit a))
      else Inl UnboundLocalError)"

subsection \<open>The conflict check\<close>

text \<open>
  Lines 229 to 261 of \<open>main\<close>: the index of the teams in use, the names that the
  destination has already, and \<open>sys.exit(1)\<close> when there is one.
\<close>

definition conflicting_teams :: "used_teams \<Rightarrow> string list \<Rightarrow> string list" where
  "conflicting_teams src_teams dst_team_names =
     filter (\<lambda>src_t_name. src_t_name \<in> set dst_team_names) (map fst src_teams)"

definition check_teams ::
  "'w api \<Rightarrow> 'w \<Rightarrow> org \<Rightarrow> repo list \<Rightarrow> event list \<times> (outcome + used_teams)" where
  "check_teams api w dst src_repos =
     (case find_teams_by_repos api w src_repos of
        Inl e \<Rightarrow> ([], Inl (Raised e))
      | Inr src_rt \<Rightarrow>
          (let src_teams = find_used_teams src_rt;
               dst_team_names = map team_name (org_get_teams api w dst);
               conflicting = conflicting_teams src_teams dst_team_names
           in if conflicting \<noteq> [] then
                (map (\<lambda>t. Err (''    '' @ login dst @ ''/'' @ sq @ t @ sq @ '' already exists''))
                   conflicting
                 @ [Err (''conflicting teams in '' @ login dst @ '':'')]
                 @ map (\<lambda>t. Err (''  '' @ sq @ t @ sq)) conflicting,
                 Inl (Exit 1))
              else ([], Inr src_teams)))"

subsection \<open>main\<close>

text \<open>
  Without \<open>--copy-teams\<close> the variable \<open>src_teams\<close> is never assigned and never read;
  the empty index stands for it.  \<open>main\<close> calls \<open>create_teams\<close> with the defaults
  \<open>with_repos=False\<close> and \<open>ignore_existing=False\<close>.
\<close>

definition main :: "'w api \<Rightarrow> 'w \<Rightarrow> args \<Rightarrow> event list \<times> outcome \<times> 'w" where
  "main api w a =
     (case validate_org api (args_dst_org a) of
        Some e \<Rightarrow> ([], Raised e, w)
      | None \<Rightarrow>
          (let src = get_organization api (args_src_org a);
               dst = get_organization api (args_dst_org a)
           in case select_repos api w src a of
                Inl e \<Rightarrow> ([], Raised e, w)
              | Inr src_repos \<Rightarrow>
                  if src_repos = [] then ([], Exit 0, w)
                  else
                    (case (if args_copy_teams a then check_teams api w dst src_repos
                           else ([], Inr [])) of
                       (tr1, Inl out) \<Rightarrow> (tr1, out, w)
                     | (tr1, Inr src_teams) \<Rightarrow>
                         (case create_forks api w dst src_repos of
                            (tr2, Returned, w2) \<Rightarrow>
                              if args_copy_teams a then
                                (case create_teams api w2 dst src_teams False False of
                                   (tr3, Inl e, w3) \<Rightarrow> (tr1 @ tr2 @ tr3, Raised e, w3)
                                 | (tr3, Inr dst_teams, w3) \<Rightarrow> (tr1 @ tr2 @ tr3, Returned, w3))
                              else (tr1 @ tr2, Returned, w2)
                          | (tr2, out, w2) \<Rightarrow> (tr1 @ tr2, out, w2)))))"

text \<open>The exit status of the process: an uncaught exception ends it with status 1.\<close>

fun exit_status :: "outcome \<Rightarrow> int" where
  "exit_status Returned = 0"
| "exit_status (Exit n) = n"
| "exit_status (Raised e) = 1"

text \<open>The two kinds of request that change the destination, and the warning.\<close>

fun is_fork_request :: "event \<Rightarrow> bool" where
  "is_fork_request (ForkRequest org r) = True"
| "is_fork_request ev = False"

fun is_team_request :: "event \<Rightarrow> bool" where
  "is_team_request (TeamRequest org name repo_names) = True"
| "is_team_request ev = False"

fun is_warning :: "event \<Rightarrow> bool" where
  "is_warning (Warn r c) = True"
| "is_warning ev = False"

fun is_error :: "event \<Rightarrow> bool" where
  "is_error (Err m) = True"
| "is_error ev = False"

section \<open>github_list_repos\<close>

text \<open>\<open>xs.remove(x)\<close>: the first occurrence goes, and \<open>ValueError\<close> when there is none.\<close>

definition list_remove :: "'a \<Rightarrow> 'a list \<Rightarrow> exn + 'a list" where
  "list_remove x xs = (if x \<in> set xs then Inr (remove1 x xs) else Inl ValueError)"

text \<open>
  Lines 58 and 59: \<open>if opt.hide: teamnames.remove(opt.hide)\<close>.  An option that was not
  given is \<open>None\<close>; \<open>None\<close> and the empty string are both false.
\<close>

definition hide_team :: "string option \<Rightarrow> string list \<Rightarrow> exn + string list" where
  "hide_team h teamnames =
     (case h of
        None \<Rightarrow> Inr teamnames
      | Some H \<Rightarrow> if H = [] then Inr teamnames else list_remove H teamnames)"

text \<open>
  The loop over \<open>org.iter_repos()\<close> (lines 50 to 61): the lines printed and how the
  loop ends.  \<open>iter_teams\<close> gives the teams of a repository.
\<close>

fun list_repos :: "(repo \<Rightarrow> team list) \<Rightarrow> opt \<Rightarrow> repo list \<Rightarrow> string list \<times> outcome" where
  "list_repos iter_teams opts [] = ([], Returned)"
| "list_repos iter_teams opts (r # rest) =
     (if \<not> opt_teams opts then
        (let (out, res) = list_repos iter_teams opts rest in (repo_name r # out, res))
      else
        (case hide_team (opt_hide opts) (map team_name (iter_teams r)) of
           Inl e \<Rightarrow> ([], Raised e)
         | Inr teamnames \<Rightarrow>
             (let (out, res) = list_repos iter_teams opts rest
              in ((repo_name r @ '' : '' @ join [CHR 0x09] teamnames) # out, res))))"

section \<open>A small GitHub for concrete runs\<close>

text \<open>
  One instance of the remote service, to run the tools on concrete inputs: the teams
  of every organization, the teams of every repository, the forks that exist with
  their creation times, and a clock that advances at every reading and every
  creation.  Forking a repository that is forked already returns the existing fork;
  creating a team whose name exists is refused, with the payload \<open>sim_refusal\<close>;
  forking a repository listed in \<open>sim_denied\<close> is refused.
\<close>

record sim =
  sim_clock :: time
  sim_org_teams :: "(string \<times> team list) list"
  sim_repo_teams :: "(string \<times> team list) list"
  sim_forks :: "(string \<times> time) list"
  sim_denied :: "string list"
  sim_refusal :: gh_data

definition sim_teams_of :: "sim \<Rightarrow> org \<Rightarrow> team list" where
  "sim_teams_of s org = (case map_of (sim_org_teams s) (login org) of None \<Rightarrow> [] | Some ts \<Rightarrow> ts)"

definition forbidden :: exn where
  "forbidden = GithubException 403 \<lparr>message = Some ''Forbidden'', errors = None\<rparr>"

definition sim_create_fork :: "sim \<Rightarrow> org \<Rightarrow> repo \<Rightarrow> (exn + fork) \<times> sim" where
  "sim_create_fork s org r =
     (let n = login org @ ''/'' @ repo_name r
      in if full_name r \<in> set (sim_denied s) then (Inl forbidden, s)
         else
         case map_of (sim_forks s) n of
           Some c \<Rightarrow> (Inr \<lparr>fork_full_name = n, created_at = c\<rparr>, s)
         | None \<Rightarrow>
             (Inr \<lparr>fork_full_name = n, created_at = sim_clock s\<rparr>,
              s\<lparr>sim_clock := sim_clock s + 1, sim_forks := (n, sim_clock s) # sim_forks s\<rparr>))"

text \<open>What GitHub answers when the name of a new team exists.\<close>

definition name_taken :: gh_data where
  "name_taken =
     \<lparr>message = Some ''Validation Failed'',
      errors = Some [Some ''Name has already been taken'']\<rparr>"

definition sim_create_team ::
  "sim \<Rightarrow> org \<Rightarrow> string \<Rightarrow> string list option \<Rightarrow> (exn + team) \<times> sim" where
  "sim_create_team s org name repo_names =
     (if name \<in> set (map team_name (sim_teams_of s org)) then (Inl (GithubException 422 (sim_refusal s)), s)
      else
        (let t = \<lparr>team_name = name,
                  team_repos =
                    (case repo_names of
                       None \<Rightarrow> []
                     | Some ns \<Rightarrow> map (\<lambda>n. \<lparr>repo_name = n, full_name = n\<rparr>) ns)\<rparr>
         in (Inr t,
             s\<lparr>sim_org_teams :=
                 AList.update (login org) (sim_teams_of s org @ [t]) (sim_org_teams s)\<rparr>)))"

definition sim_api :: "sim api" where
  "sim_api =
     \<lparr>validate_org = (\<lambda>n. None),
      get_organization = (\<lambda>n. \<lparr>login = n\<rparr>),
      now = (\<lambda>s. (sim_clock s, s\<lparr>sim_clock := sim_clock s + 1\<rparr>)),
      org_get_teams = sim_teams_of,
      repo_get_teams =
        (\<lambda>s r. case map_of (sim_repo_teams s) (full_name r) of None \<Rightarrow> [] | Some ts \<Rightarrow> ts),
      org_create_fork = sim_create_fork,
      org_create_team = sim_create_team\<rparr>"

text \<open>
  The organization \<open>A\<close> of the end-to-end scenarios of the spec: \<open>A/x\<close> in team \<open>t1\<close>,
  \<open>A/y\<close> in \<open>t1\<close> and \<open>t2\<close>, \<open>A/z\<close> in \<open>t2\<close>; the destination \<open>B\<close> without teams, or
  with a team \<open>t1\<close>.
\<close>

definition repo_x :: repo where "repo_x = \<lparr>repo_name = ''x'', full_name = ''A/x''\<rparr>"
definition repo_y :: repo where "repo_y = \<lparr>repo_name = ''y'', full_name = ''A/y''\<rparr>"
definition repo_z :: repo where "repo_z = \<lparr>repo_name = ''z'', full_name = ''A/z''\<rparr>"

definition team_t1 :: team where
  "team_t1 = \<lparr>team_name = ''t1'', team_repos = [repo_x, repo_y]\<rparr>"

definition team_t2 :: team where
  "team_t2 = \<lparr>team_name = ''t2'', team_repos = [repo_y, repo_z]\<rparr>"

definition org_A_teams :: "repo \<Rightarrow> team list" where
  "org_A_teams r =
     (if r = repo_x then [team_t1] else if r = repo_y then [team_t1, team_t2]
      else if r = repo_z then [team_t2] else [])"

definition scenario :: "team list \<Rightarrow> sim" where
  "scenario dst_teams =
     \<lparr>sim_clock = 100,
      sim_org_teams = [(''A'', [team_t1, team_t2]), (''B'', dst_teams)],
      sim_repo_teams =
        [(''A/x'', [team_t1]), (''A/y'', [team_t1, team_t2]), (''A/z'', [team_t2])],
      sim_forks = [], sim_denied = [], sim_refusal = name_taken\<rparr>"

definition scenario_args :: args where
  "scenario_args =
     \<lparr>args_src_org = ''A'', args_dst_org = ''B'', args_team = [''t1''],
      args_limit = None, args_copy_teams = True\<rparr>"

definition org_B :: org where "org_B = \<lparr>login = ''B''\<rparr>"

text \<open>A team of the destination, known by its name only.\<close>

definition team_named :: "string \<Rightarrow> team" where
  "team_named n = \<lparr>team_name = n, team_repos = []\<rparr>"

text \<open>
  The scenario after an earlier run has forked \<open>x\<close> and \<open>y\<close> into \<open>B\<close>, and the states
  a second run can go through from there.
\<close>

definition forked_before :: sim where
  "forked_before = (scenario [])\<lparr>sim_forks := [(''B/x'', 50), (''B/y'', 60)]\<rparr>"

definition forked_states :: "sim set" where
  "forked_states =
     {s. sim_forks s = [(''B/x'', 50), (''B/y'', 60)] \<and> sim_denied s = [] \<and> 100 \<le> sim_clock s}"

section \<open>Properties\<close>

subsection \<open>Library functions and fixtures\<close>

text \<open>\<open>str_in\<close> is the substring relation.\<close>

lemma startswith_prefix: "startswith hay needle = prefix needle hay"
  by (induction hay needle rule: startswith.induct) auto

lemma str_in_sublist: "str_in needle hay = sublist needle hay"
  by (induction hay) (auto simp: startswith_prefix sublist_Cons_right)

text \<open>Unfolding the concrete runs.\<close>

lemmas scenario_defs =
  sim_api_def scenario_def scenario_args_def sim_teams_of_def sim_create_fork_def
  sim_create_team_def team_t1_def team_t2_def repo_x_def repo_y_def repo_z_def org_B_def
  name_taken_def forbidden_def

lemmas fork_tool_defs =
  select_repos_def get_repos_by_team_def islice_def find_teams_by_repos_def max_name_len_def
  find_used_teams_def add_used_def check_teams_def conflicting_teams_def

lemma scenario_select:
  "select_repos sim_api ((scenario ts)\<lparr>sim_denied := ds\<rparr>) \<lparr>login = ''A''\<rparr> scenario_args
     = Inr [repo_x, repo_y]"
  by (simp add: scenario_defs fork_tool_defs)

lemma scenario_src_rt:
  "find_teams_by_repos sim_api ((scenario ts)\<lparr>sim_denied := ds\<rparr>) [repo_x, repo_y]
     = Inr [(''A/x'', repo_x, [team_t1]), (''A/y'', repo_y, [team_t1, team_t2])]"
  by (simp add: scenario_defs fork_tool_defs)

lemma scenario_used:
  "find_used_teams [(''A/x'', repo_x, [team_t1]), (''A/y'', repo_y, [team_t1, team_t2])]
     = [(''t1'', [repo_x, repo_y]), (''t2'', [repo_y])]"
  by (simp add: scenario_defs fork_tool_defs)

lemma scenario_dst_teams:
  "org_get_teams sim_api ((scenario ts)\<lparr>sim_denied := ds\<rparr>) \<lparr>login = ''B''\<rparr> = ts"
  by (simp add: scenario_defs)

lemma scenario_check_conflict:
  "check_teams sim_api ((scenario [\<lparr>team_name = ''t1'', team_repos = []\<rparr>])\<lparr>sim_denied := ds\<rparr>)
     \<lparr>login = ''B''\<rparr> [repo_x, repo_y]
   = ([Err (''    B/'' @ sq @ ''t1'' @ sq @ '' already exists''),
       Err ''conflicting teams in B:'',
       Err (''  '' @ sq @ ''t1'' @ sq)], Inl (Exit 1))"
  by (simp add: check_teams_def scenario_src_rt scenario_used scenario_dst_teams
      conflicting_teams_def)

lemma scenario_check_ok:
  "check_teams sim_api ((scenario [])\<lparr>sim_denied := ds\<rparr>) \<lparr>login = ''B''\<rparr> [repo_x, repo_y]
   = ([], Inr [(''t1'', [repo_x, repo_y]), (''t2'', [repo_y])])"
  by (simp add: check_teams_def scenario_src_rt scenario_used scenario_dst_teams
      conflicting_teams_def)

lemma scenario_select_unlimited:
  "select_repos sim_api (scenario []) \<lparr>login = ''A''\<rparr> (scenario_args\<lparr>args_limit := None\<rparr>)
     = Inr [repo_x, repo_y]"
  by (simp add: scenario_defs fork_tool_defs)

lemma sim_upd_id: "(scenario ts)\<lparr>sim_denied := []\<rparr> = scenario ts"
  by (simp add: scenario_def)

subsection \<open>What the stages emit\<close>

text \<open>
  The \<open>debug\<close> call that opens the loop of \<open>create_teams\<close> raises \<open>KeyError\<close>: the
  format string asks for a field \<open>o\<close>, the call passes \<open>org\<close>.  So \<open>create_teams\<close>
  returns only for an empty index, and issues no request at all.
\<close>

lemma creating_team_msg_raises: "creating_team_msg org name = Inl (KeyError ''o'')"
  by (simp add: creating_team_msg_def)

lemma create_teams_raises:
  "create_teams api w org tms with_repos ignore_existing =
     (if tms = [] then ([], Inr [], w) else ([], Inl (KeyError ''o''), w))"
  by (cases tms) (auto simp: create_teams_def creating_team_msg_raises)

lemma create_forks_events:
  "create_forks api w dst rs = (tr, out, w') \<Longrightarrow>
     (\<forall>ev \<in> set tr. is_fork_request ev \<or> is_warning ev) \<and>
     (out = Returned \<or> (\<exists>e. out = Raised e))"
proof (induction rs arbitrary: w tr out w')
  case Nil
  then show ?case by simp
next
  case (Cons r rs)
  obtain t w1 where n: "now api w = (t, w1)" by (cases "now api w")
  obtain reply w2 where f: "org_create_fork api w1 dst r = (reply, w2)"
    by (cases "org_create_fork api w1 dst r")
  show ?case
  proof (cases reply)
    case (Inl e)
    with Cons.prems n f show ?thesis by auto
  next
    case (Inr fk)
    obtain tr2 out2 w3 where rest: "create_forks api w2 dst rs = (tr2, out2, w3)"
      by (cases "create_forks api w2 dst rs")
    from Cons.IH [OF rest] Cons.prems n f Inr rest show ?thesis by auto
  qed
qed

lemma check_errors_events:
  "check_errors ig e errs = (tr, res) \<Longrightarrow> ev \<in> set tr \<Longrightarrow> is_error ev"
  by (induction errs arbitrary: tr res) (auto split: option.splits if_splits prod.splits)

lemma handle_create_error_events:
  "handle_create_error api w org ig name e d = (tr, res) \<Longrightarrow> ev \<in> set tr \<Longrightarrow> is_error ev"
  by (auto simp: handle_create_error_def split: option.splits prod.splits
      dest: check_errors_events)

lemma create_teams_step_events:
  "create_teams_step api w org wr ig name repos dts = (tr, res, w') \<Longrightarrow>
     \<forall>ev \<in> set tr. is_team_request ev \<or> is_error ev"
  by (auto simp: create_teams_step_def Let_def split: prod.splits sum.splits exn.splits
      dest: handle_create_error_events)

lemma create_teams_loop_events:
  "create_teams_loop api w org wr ig tms dts = (tr, res, w') \<Longrightarrow>
     \<forall>ev \<in> set tr. is_team_request ev \<or> is_error ev"
proof (induction tms arbitrary: w dts tr res w')
  case Nil
  then show ?case by simp
next
  case (Cons p tms)
  obtain name repos where p: "p = (name, repos)" by (cases p)
  show ?case
  proof (cases "creating_team_msg org name")
    case (Inl e)
    with Cons.prems p show ?thesis by simp
  next
    case (Inr dbg)
    obtain tr1 res1 w1 where st: "create_teams_step api w org wr ig name repos dts = (tr1, res1, w1)"
      by (cases "create_teams_step api w org wr ig name repos dts")
    note ev1 = create_teams_step_events [OF st]
    show ?thesis
    proof (cases res1)
      case (Inl e)
      with Cons.prems p Inr st ev1 show ?thesis by auto
    next
      case r: (Inr dts1)
      obtain tr2 res2 w2 where rest: "create_teams_loop api w1 org wr ig tms dts1 = (tr2, res2, w2)"
        by (cases "create_teams_loop api w1 org wr ig tms dts1")
      from Cons.IH [OF rest] Cons.prems p Inr st ev1 r rest show ?thesis by auto
    qed
  qed
qed

lemma check_teams_events:
  "check_teams api w dst src_repos = (tr, res) \<Longrightarrow> \<forall>ev \<in> set tr. is_error ev"
  by (auto simp: check_teams_def Let_def split: sum.splits if_splits)

lemma check_teams_Inl:
  "src_repos \<noteq> [] \<Longrightarrow> check_teams api w dst src_repos = (tr, Inl out) \<Longrightarrow> out = Exit 1"
  by (auto simp: check_teams_def Let_def find_teams_by_repos_def max_name_len_def
      split: sum.splits if_splits)

lemma main_after_select:
  assumes "validate_org api (args_dst_org a) = None"
    and "select_repos api w (get_organization api (args_src_org a)) a = Inr src_repos"
    and "src_repos \<noteq> []"
  shows "main api w a =
     (case (if args_copy_teams a
            then check_teams api w (get_organization api (args_dst_org a)) src_repos
            else ([], Inr [])) of
        (tr1, Inl out) \<Rightarrow> (tr1, out, w)
      | (tr1, Inr src_teams) \<Rightarrow>
          (case create_forks api w (get_organization api (args_dst_org a)) src_repos of
             (tr2, Returned, w2) \<Rightarrow>
               if args_copy_teams a then
                 (case create_teams api w2 (get_organization api (args_dst_org a)) src_teams False False of
                    (tr3, Inl e, w3) \<Rightarrow> (tr1 @ tr2 @ tr3, Raised e, w3)
                  | (tr3, Inr dst_teams, w3) \<Rightarrow> (tr1 @ tr2 @ tr3, Returned, w3))
               else (tr1 @ tr2, Returned, w2)
           | (tr2, out, w2) \<Rightarrow> (tr1 @ tr2, out, w2)))"
  using assms by (simp add: main_def Let_def)

subsection \<open>Selection\<close>

lemma set_uniq_from: "set (uniq_from seen xs) = set xs - set seen"
  by (induction xs arbitrary: seen) auto

lemma distinct_uniq_from: "distinct (uniq_from seen xs)"
  by (induction xs arbitrary: seen) (auto simp: set_uniq_from)

text \<open>
  Claim C2.  With a non-empty list of \<open>--team\<close> names and no \<open>--limit\<close>, the selected
  repositories are exactly the repositories of the source organization's teams whose
  name is among the given names, each of them once.  (\<open>get_repos_by_team\<close> is modelled
  from the spec.)
\<close>

theorem select_repos_by_team:
  "args_team a \<noteq> [] \<Longrightarrow> args_limit a = None \<Longrightarrow>
   \<exists>sel. select_repos api w src a = Inr sel \<and> distinct sel \<and>
     set sel = {r. \<exists>t \<in> set (org_get_teams api w src).
                     team_name t \<in> set (args_team a) \<and> r \<in> set (team_repos t)}"
  by (auto simp: select_repos_def islice_def get_repos_by_team_def set_uniq_from distinct_uniq_from)

theorem select_repos_by_team_witness:
  "args_team scenario_args \<noteq> [] \<and> args_limit scenario_args = None \<and>
   select_repos sim_api (scenario []) \<lparr>login = ''A''\<rparr> scenario_args = Inr [repo_x, repo_y] \<and>
   distinct [repo_x, repo_y] \<and>
   set [repo_x, repo_y] =
     {r. \<exists>t \<in> set (org_get_teams sim_api (scenario []) \<lparr>login = ''A''\<rparr>).
           team_name t \<in> set (args_team scenario_args) \<and> r \<in> set (team_repos t)}"
proof -
  have h1: "args_team scenario_args \<noteq> []" by (simp add: scenario_args_def)
  have h2: "args_limit scenario_args = None" by (simp add: scenario_args_def)
  have s: "select_repos sim_api (scenario []) \<lparr>login = ''A''\<rparr> scenario_args = Inr [repo_x, repo_y]"
    using scenario_select [where ts = "[]" and ds = "[]"] by (simp add: sim_upd_id)
  from select_repos_by_team [OF h1 h2, of sim_api "scenario []" "\<lparr>login = ''A''\<rparr>"] s h1 h2
  show ?thesis by auto
qed

text \<open>
  Claim C5, amended.  Let \<open>S\<close> be the selection without a limit.  Without \<open>--limit\<close>
  all of \<open>S\<close> is processed; with \<open>--limit N\<close> and \<open>0 \<le> N \<le> sys.maxsize\<close> the first
  \<open>min N |S|\<close> elements of \<open>S\<close>, in order; any other \<open>N\<close> makes \<open>islice\<close> raise
  \<open>ValueError\<close>.
\<close>

theorem select_repos_limit:
  assumes "args_team a \<noteq> []"
    and "select_repos api w src (a\<lparr>args_limit := None\<rparr>) = Inr S"
  shows "select_repos api w src a =
           (case args_limit a of
              None \<Rightarrow> Inr S
            | Some N \<Rightarrow>
                if 0 \<le> N \<and> N \<le> sys_maxsize then Inr (take (min (nat N) (length S)) S)
                else Inl ValueError)"
  using assms by (auto simp: select_repos_def islice_def Let_def min_def split: option.splits)

theorem select_repos_limit_witness:
  "args_team scenario_args \<noteq> [] \<and>
   select_repos sim_api (scenario []) \<lparr>login = ''A''\<rparr> (scenario_args\<lparr>args_limit := None\<rparr>)
     = Inr [repo_x, repo_y] \<and>
   select_repos sim_api (scenario []) \<lparr>login = ''A''\<rparr> (scenario_args\<lparr>args_limit := Some 1\<rparr>)
     = Inr [repo_x] \<and>
   select_repos sim_api (scenario []) \<lparr>login = ''A''\<rparr> (scenario_args\<lparr>args_limit := Some 5\<rparr>)
     = Inr [repo_x, repo_y]"
proof -
  have h1: "args_team scenario_args \<noteq> []" by (simp add: scenario_args_def)
  have h1': "\<And>l. args_team (scenario_args\<lparr>args_limit := l\<rparr>) \<noteq> []" by (simp add: scenario_args_def)
  have h2: "\<And>l. select_repos sim_api (scenario []) \<lparr>login = ''A''\<rparr> (scenario_args\<lparr>args_limit := l, args_limit := None\<rparr>) = Inr [repo_x, repo_y]"
    using scenario_select_unlimited by simp
  show ?thesis
    using h1 scenario_select_unlimited select_repos_limit [OF h1' h2, of "Some 1"]
      select_repos_limit [OF h1' h2, of "Some 5"]
    by (simp add: sys_maxsize_def)
qed

text \<open>
  Claim C5 as stated fails for a negative limit: \<open>--limit -1\<close> ends the run with
  \<open>ValueError\<close> and nothing is processed.
\<close>

theorem select_repos_limit_counterexample:
  "select_repos sim_api (scenario []) \<lparr>login = ''A''\<rparr> (scenario_args\<lparr>args_limit := Some (- 1)\<rparr>)
     = Inl ValueError \<and>
   fst (snd (main sim_api (scenario []) (scenario_args\<lparr>args_limit := Some (- 1)\<rparr>)))
     = Raised ValueError"
  by (simp add: main_def select_repos_def islice_def scenario_args_def sim_api_def)

subsection \<open>The conflict check\<close>

text \<open>
  Claim C1.  In a run with \<open>--copy-teams\<close> that reaches the conflict check, if a name
  of the team-usage index is the name of a team of the destination, the run ends with
  exit status 1, both error messages are logged for every conflicting name, no fork
  request and no team request is issued, and the remote state is unchanged.
\<close>

theorem conflict_exits_before_fork:
  assumes copy: "args_copy_teams a"
    and valid: "validate_org api (args_dst_org a) = None"
    and sel: "select_repos api w (get_organization api (args_src_org a)) a = Inr src_repos"
    and rt: "find_teams_by_repos api w src_repos = Inr src_rt"
    and src: "n \<in> fst ` set (find_used_teams src_rt)"
    and dst: "n \<in> team_name ` set (org_get_teams api w (get_organization api (args_dst_org a)))"
  shows "\<exists>tr. main api w a = (tr, Exit 1, w) \<and>
           (\<forall>c. c \<in> fst ` set (find_used_teams src_rt) \<and>
                c \<in> team_name ` set (org_get_teams api w (get_organization api (args_dst_org a)))
                \<longrightarrow> Err (''    '' @ login (get_organization api (args_dst_org a)) @ ''/'' @ sq @ c @ sq
                           @ '' already exists'') \<in> set tr
                    \<and> Err (''  '' @ sq @ c @ sq) \<in> set tr) \<and>
           (\<forall>ev \<in> set tr. \<not> is_fork_request ev \<and> \<not> is_team_request ev)"
proof -
  define dorg where "dorg = get_organization api (args_dst_org a)"
  define conf where
    "conf = conflicting_teams (find_used_teams src_rt) (map team_name (org_get_teams api w dorg))"
  have ne: "src_repos \<noteq> []"
    using rt by (auto simp: find_teams_by_repos_def max_name_len_def)
  have mem: "\<And>c. c \<in> set conf \<longleftrightarrow>
      c \<in> fst ` set (find_used_teams src_rt) \<and> c \<in> team_name ` set (org_get_teams api w dorg)"
    by (auto simp: conf_def conflicting_teams_def)
  have "n \<in> set conf" using src dst by (simp add: mem dorg_def)
  then have cne: "conf \<noteq> []" by auto
  define tr where "tr =
     map (\<lambda>t. Err (''    '' @ login dorg @ ''/'' @ sq @ t @ sq @ '' already exists'')) conf
       @ [Err (''conflicting teams in '' @ login dorg @ '':'')]
       @ map (\<lambda>t. Err (''  '' @ sq @ t @ sq)) conf"
  have ck: "check_teams api w dorg src_repos = (tr, Inl (Exit 1))"
    using cne by (simp add: check_teams_def rt Let_def conf_def tr_def)
  have m: "main api w a = (tr, Exit 1, w)"
    using ne by (simp add: main_def valid sel copy ck [unfolded dorg_def] Let_def)
  have rep: "\<And>c. c \<in> set conf \<Longrightarrow>
      Err (''    '' @ login dorg @ ''/'' @ sq @ c @ sq @ '' already exists'') \<in> set tr
      \<and> Err (''  '' @ sq @ c @ sq) \<in> set tr"
    by (auto simp: tr_def)
  have noreq: "\<forall>ev \<in> set tr. \<not> is_fork_request ev \<and> \<not> is_team_request ev"
    by (auto simp: tr_def)
  show ?thesis
    using m rep noreq mem unfolding dorg_def by blast
qed

theorem conflict_exits_before_fork_witness:
  "args_copy_teams scenario_args \<and>
   ''t1'' \<in> team_name ` set (org_get_teams sim_api
       (scenario [\<lparr>team_name = ''t1'', team_repos = []\<rparr>]) \<lparr>login = ''B''\<rparr>) \<and>
   fst (snd (main sim_api (scenario [\<lparr>team_name = ''t1'', team_repos = []\<rparr>]) scenario_args))
     = Exit 1 \<and>
   Err (''  '' @ sq @ ''t1'' @ sq)
     \<in> set (fst (main sim_api (scenario [\<lparr>team_name = ''t1'', team_repos = []\<rparr>]) scenario_args)) \<and>
   filter is_fork_request
     (fst (main sim_api (scenario [\<lparr>team_name = ''t1'', team_repos = []\<rparr>]) scenario_args)) = []"
proof -
  let ?w = "scenario [\<lparr>team_name = ''t1'', team_repos = []\<rparr>]"
  have copy: "args_copy_teams scenario_args" by (simp add: scenario_args_def)
  have valid: "validate_org sim_api (args_dst_org scenario_args) = None"
    by (simp add: sim_api_def)
  have sel: "select_repos sim_api ?w (get_organization sim_api (args_src_org scenario_args))
               scenario_args = Inr [repo_x, repo_y]"
    using scenario_select [where ts = "[\<lparr>team_name = ''t1'', team_repos = []\<rparr>]" and ds = "[]"]
    by (simp add: sim_upd_id) (simp add: sim_api_def scenario_args_def)
  have rt: "find_teams_by_repos sim_api ?w [repo_x, repo_y]
              = Inr [(''A/x'', repo_x, [team_t1]), (''A/y'', repo_y, [team_t1, team_t2])]"
    using scenario_src_rt [where ts = "[\<lparr>team_name = ''t1'', team_repos = []\<rparr>]" and ds = "[]"]
    by (simp add: sim_upd_id)
  have src: "''t1'' \<in> fst ` set (find_used_teams
               [(''A/x'', repo_x, [team_t1]), (''A/y'', repo_y, [team_t1, team_t2])])"
    by (simp add: scenario_used)
  have dst: "''t1'' \<in> team_name ` set (org_get_teams sim_api ?w
               (get_organization sim_api (args_dst_org scenario_args)))"
    by (simp add: scenario_defs)
  have dst': "''t1'' \<in> team_name ` set (org_get_teams sim_api ?w \<lparr>login = ''B''\<rparr>)"
    by (simp add: scenario_defs)
  from conflict_exits_before_fork [OF copy valid sel rt src dst]
  obtain tr where m: "main sim_api ?w scenario_args = (tr, Exit 1, ?w)"
    and rep: "Err (''  '' @ sq @ ''t1'' @ sq) \<in> set tr"
    and noreq: "\<forall>ev \<in> set tr. \<not> is_fork_request ev \<and> \<not> is_team_request ev"
    using src dst by blast
  have "filter is_fork_request tr = []" using noreq by (simp add: filter_empty_conv)
  then show ?thesis using copy dst' m rep by simp
qed

subsection \<open>The order of the stages\<close>

text \<open>The stages of a run whose selection is not empty.\<close>

lemma main_order_selected:
  assumes valid: "validate_org api (args_dst_org a) = None"
    and sel: "select_repos api w (get_organization api (args_src_org a)) a = Inr src_repos"
    and ne: "src_repos \<noteq> []"
    and m: "main api w a = (tr, out, w')"
  shows "(\<exists>checks forks tms. tr = checks @ forks @ tms \<and>
            (\<forall>ev \<in> set checks. is_error ev) \<and>
            (\<forall>ev \<in> set forks. is_fork_request ev \<or> is_warning ev) \<and>
            (\<forall>ev \<in> set tms. is_team_request ev \<or> is_error ev)) \<and>
         (\<forall>tr1 out1. args_copy_teams a \<and>
            check_teams api w (get_organization api (args_dst_org a)) src_repos = (tr1, Inl out1)
            \<longrightarrow> tr = tr1 \<and> out = Exit 1 \<and> w' = w \<and>
                (\<forall>ev \<in> set tr. \<not> is_fork_request ev \<and> \<not> is_team_request ev)) \<and>
         (\<forall>tr2 e w2.
            (args_copy_teams a \<longrightarrow>
               (\<exists>tr1 src_teams.
                  check_teams api w (get_organization api (args_dst_org a)) src_repos
                    = (tr1, Inr src_teams))) \<and>
            create_forks api w (get_organization api (args_dst_org a)) src_repos = (tr2, Raised e, w2)
            \<longrightarrow> out = Raised e \<and> w' = w2 \<and> (\<forall>ev \<in> set tr. \<not> is_team_request ev))"
proof -
  define dorg where "dorg = get_organization api (args_dst_org a)"
  note unf = main_after_select [OF valid sel ne, folded dorg_def]
  obtain tr1 res1 where ck:
    "(if args_copy_teams a then check_teams api w dorg src_repos else ([], Inr [])) = (tr1, res1)"
    by (cases "if args_copy_teams a then check_teams api w dorg src_repos else ([], Inr [])")
  have ev1: "\<forall>ev \<in> set tr1. is_error ev"
    using ck check_teams_events [of api w dorg src_repos] by (auto split: if_splits)
  obtain tr2 out2 w2 where fk: "create_forks api w dorg src_repos = (tr2, out2, w2)"
    by (cases "create_forks api w dorg src_repos")
  note ev2 = create_forks_events [OF fk]
  have noteam2: "\<forall>ev \<in> set tr2. \<not> is_team_request ev"
  proof
    fix ev assume "ev \<in> set tr2"
    with ev2 have "is_fork_request ev \<or> is_warning ev" by blast
    then show "\<not> is_team_request ev" by (cases ev) auto
  qed
  have noreq1: "\<forall>ev \<in> set tr1. \<not> is_fork_request ev \<and> \<not> is_team_request ev"
  proof
    fix ev assume "ev \<in> set tr1"
    with ev1 have "is_error ev" by blast
    then show "\<not> is_fork_request ev \<and> \<not> is_team_request ev" by (cases ev) auto
  qed
  show ?thesis
  proof (cases res1)
    case (Inl out1)
    have copy: "args_copy_teams a" using ck Inl by (auto split: if_splits)
    then have ck': "check_teams api w dorg src_repos = (tr1, Inl out1)" using ck Inl by simp
    have o1: "out1 = Exit 1" using check_teams_Inl [OF ne ck'] .
    have res: "tr = tr1" "out = Exit 1" "w' = w"
      using m unf ck Inl o1 by simp_all
    have "tr = tr1 @ [] @ []" using res by simp
    then have A: "\<exists>checks forks tms. tr = checks @ forks @ tms \<and>
            (\<forall>ev \<in> set checks. is_error ev) \<and>
            (\<forall>ev \<in> set forks. is_fork_request ev \<or> is_warning ev) \<and>
            (\<forall>ev \<in> set tms. is_team_request ev \<or> is_error ev)"
      using ev1 by (intro exI [of _ tr1] exI [of _ "[]"]) simp
    show ?thesis
      using A res noreq1 copy ck' unfolding dorg_def [symmetric] by auto
  next
    case (Inr src_teams)
    have nock: "\<And>t o1. args_copy_teams a \<Longrightarrow> check_teams api w dorg src_repos \<noteq> (t, Inl o1)"
      using ck Inr by auto
    show ?thesis
    proof (cases out2)
      case Returned
      obtain tr3 res3 w3 where ct:
        "create_teams api w2 dorg src_teams False False = (tr3, res3, w3)"
        by (cases "create_teams api w2 dorg src_teams False False")
      have ev3: "\<forall>ev \<in> set tr3. is_team_request ev \<or> is_error ev"
        by (rule create_teams_loop_events [OF ct [unfolded create_teams_def]])
      have "tr = tr1 @ tr2 @ (if args_copy_teams a then tr3 else [])"
        using m unf ck Inr fk Returned ct by (auto split: sum.splits)
      then have A: "\<exists>checks forks tms. tr = checks @ forks @ tms \<and>
            (\<forall>ev \<in> set checks. is_error ev) \<and>
            (\<forall>ev \<in> set forks. is_fork_request ev \<or> is_warning ev) \<and>
            (\<forall>ev \<in> set tms. is_team_request ev \<or> is_error ev)"
        using ev1 ev2 ev3
        by (intro exI [of _ tr1] exI [of _ tr2] exI [of _ "if args_copy_teams a then tr3 else []"])
          simp
      show ?thesis
        using A nock fk Returned unfolding dorg_def [symmetric] by auto
    next
      case (Exit n)
      with ev2 show ?thesis by simp
    next
      case (Raised e)
      have res: "tr = tr1 @ tr2" "out = Raised e" "w' = w2"
        using m unf ck Inr fk Raised by simp_all
      have "tr = tr1 @ tr2 @ []" using res by simp
      then have A: "\<exists>checks forks tms. tr = checks @ forks @ tms \<and>
            (\<forall>ev \<in> set checks. is_error ev) \<and>
            (\<forall>ev \<in> set forks. is_fork_request ev \<or> is_warning ev) \<and>
            (\<forall>ev \<in> set tms. is_team_request ev \<or> is_error ev)"
        using ev1 ev2 by (intro exI [of _ tr1] exI [of _ tr2] exI [of _ "[]"]) simp
      have nt: "\<forall>ev \<in> set tr. \<not> is_team_request ev"
        using res noreq1 noteam2 by auto
      show ?thesis
        using A nock fk Raised res nt unfolding dorg_def [symmetric] by auto
    qed
  qed
qed

lemma main_not_selected:
  assumes "validate_org api (args_dst_org a) \<noteq> None \<or>
           (\<exists>e. select_repos api w (get_organization api (args_src_org a)) a = Inl e) \<or>
           select_repos api w (get_organization api (args_src_org a)) a = Inr []"
  shows "fst (main api w a) = [] \<and> snd (snd (main api w a)) = w"
  using assms by (auto simp: main_def Let_def split: option.splits sum.splits)

text \<open>
  Claim C7.  The trace of every run is the messages of the conflict check, then the
  events of the fork stage, then those of the team stage.  A run that is stopped
  before or by the selection leaves an empty trace.  When the conflict check fails,
  the run ends there with exit status 1 and without a request; when \<open>create_forks\<close>
  raises, the run ends with that exception and without a team request.
\<close>

theorem main_stage_order:
  assumes m: "main api w a = (tr, out, w')"
  shows "(\<exists>checks forks tms. tr = checks @ forks @ tms \<and>
            (\<forall>ev \<in> set checks. is_error ev) \<and>
            (\<forall>ev \<in> set forks. is_fork_request ev \<or> is_warning ev) \<and>
            (\<forall>ev \<in> set tms. is_team_request ev \<or> is_error ev)) \<and>
         (validate_org api (args_dst_org a) \<noteq> None \<or>
          (\<exists>e. select_repos api w (get_organization api (args_src_org a)) a = Inl e) \<or>
          select_repos api w (get_organization api (args_src_org a)) a = Inr []
          \<longrightarrow> tr = [] \<and> w' = w) \<and>
         (\<forall>src_repos.
            validate_org api (args_dst_org a) = None \<and>
            select_repos api w (get_organization api (args_src_org a)) a = Inr src_repos \<and>
            src_repos \<noteq> [] \<longrightarrow>
            (\<forall>tr1 out1. args_copy_teams a \<and>
               check_teams api w (get_organization api (args_dst_org a)) src_repos = (tr1, Inl out1)
               \<longrightarrow> tr = tr1 \<and> out = Exit 1 \<and> w' = w \<and>
                   (\<forall>ev \<in> set tr. \<not> is_fork_request ev \<and> \<not> is_team_request ev)) \<and>
            (\<forall>tr2 e w2.
               (args_copy_teams a \<longrightarrow>
                  (\<exists>tr1 src_teams.
                     check_teams api w (get_organization api (args_dst_org a)) src_repos
                       = (tr1, Inr src_teams))) \<and>
               create_forks api w (get_organization api (args_dst_org a)) src_repos
                 = (tr2, Raised e, w2)
               \<longrightarrow> out = Raised e \<and> w' = w2 \<and> (\<forall>ev \<in> set tr. \<not> is_team_request ev)))"
proof -
  let ?sel = "select_repos api w (get_organization api (args_src_org a)) a"
  let ?none = "validate_org api (args_dst_org a) \<noteq> None \<or> (\<exists>e. ?sel = Inl e) \<or> ?sel = Inr []"
  have empty: "?none \<Longrightarrow> tr = [] \<and> w' = w"
    using main_not_selected [of api a w] m by simp
  have order: "\<exists>checks forks tms. tr = checks @ forks @ tms \<and>
            (\<forall>ev \<in> set checks. is_error ev) \<and>
            (\<forall>ev \<in> set forks. is_fork_request ev \<or> is_warning ev) \<and>
            (\<forall>ev \<in> set tms. is_team_request ev \<or> is_error ev)"
  proof (cases ?none)
    case True
    with empty have "tr = [] @ [] @ []" by simp
    then show ?thesis by (intro exI [of _ "[]"]) simp
  next
    case False
    then obtain src_repos where
      "validate_org api (args_dst_org a) = None" "?sel = Inr src_repos" "src_repos \<noteq> []"
      by (cases ?sel) auto
    from main_order_selected [OF this m] show ?thesis by blast
  qed
  have gates: "\<And>src_repos. validate_org api (args_dst_org a) = None \<Longrightarrow>
      ?sel = Inr src_repos \<Longrightarrow> src_repos \<noteq> [] \<Longrightarrow>
            (\<forall>tr1 out1. args_copy_teams a \<and>
               check_teams api w (get_organization api (args_dst_org a)) src_repos = (tr1, Inl out1)
               \<longrightarrow> tr = tr1 \<and> out = Exit 1 \<and> w' = w \<and>
                   (\<forall>ev \<in> set tr. \<not> is_fork_request ev \<and> \<not> is_team_request ev)) \<and>
            (\<forall>tr2 e w2.
               (args_copy_teams a \<longrightarrow>
                  (\<exists>tr1 src_teams.
                     check_teams api w (get_organization api (args_dst_org a)) src_repos
                       = (tr1, Inr src_teams))) \<and>
               create_forks api w (get_organization api (args_dst_org a)) src_repos
                 = (tr2, Raised e, w2)
               \<longrightarrow> out = Raised e \<and> w' = w2 \<and> (\<forall>ev \<in> set tr. \<not> is_team_request ev))"
    using main_order_selected [OF _ _ _ m] by blast
  show ?thesis
    using order empty gates by blast
qed

theorem main_stage_order_witness:
  "fst (snd (main sim_api (scenario [\<lparr>team_name = ''t1'', team_repos = []\<rparr>]) scenario_args))
     = Exit 1 \<and>
   fst (snd (create_forks sim_api ((scenario [])\<lparr>sim_denied := [''A/y'']\<rparr>) \<lparr>login = ''B''\<rparr>
              [repo_x, repo_y])) = Raised forbidden \<and>
   fst (snd (main sim_api ((scenario [])\<lparr>sim_denied := [''A/y'']\<rparr>) scenario_args))
     = Raised forbidden \<and>
   filter is_team_request
     (fst (main sim_api ((scenario [])\<lparr>sim_denied := [''A/y'']\<rparr>) scenario_args)) = []"
proof -
  let ?w1 = "scenario [\<lparr>team_name = ''t1'', team_repos = []\<rparr>]"
  let ?w2 = "(scenario [])\<lparr>sim_denied := [''A/y'']\<rparr>"
  have valid: "validate_org sim_api (args_dst_org scenario_args) = None"
    by (simp add: sim_api_def)
  have src: "get_organization sim_api (args_src_org scenario_args) = \<lparr>login = ''A''\<rparr>"
    and dst: "get_organization sim_api (args_dst_org scenario_args) = \<lparr>login = ''B''\<rparr>"
    by (simp_all add: sim_api_def scenario_args_def)
  have copy: "args_copy_teams scenario_args" by (simp add: scenario_args_def)
  have ne: "[repo_x, repo_y] \<noteq> []" by simp
  have sel1: "select_repos sim_api ?w1 (get_organization sim_api (args_src_org scenario_args))
                scenario_args = Inr [repo_x, repo_y]"
    using scenario_select [where ts = "[\<lparr>team_name = ''t1'', team_repos = []\<rparr>]" and ds = "[]"]
    by (simp add: sim_upd_id src)
  have sel2: "select_repos sim_api ?w2 (get_organization sim_api (args_src_org scenario_args))
                scenario_args = Inr [repo_x, repo_y]"
    by (simp add: scenario_select src)
  have m1: "main sim_api ?w1 scenario_args =
              (fst (main sim_api ?w1 scenario_args), fst (snd (main sim_api ?w1 scenario_args)),
               snd (snd (main sim_api ?w1 scenario_args)))"
    by simp
  have m2: "main sim_api ?w2 scenario_args =
              (fst (main sim_api ?w2 scenario_args), fst (snd (main sim_api ?w2 scenario_args)),
               snd (snd (main sim_api ?w2 scenario_args)))"
    by simp
  have ck1: "check_teams sim_api ?w1 (get_organization sim_api (args_dst_org scenario_args))
               [repo_x, repo_y]
             = ([Err (''    B/'' @ sq @ ''t1'' @ sq @ '' already exists''),
                 Err ''conflicting teams in B:'',
                 Err (''  '' @ sq @ ''t1'' @ sq)], Inl (Exit 1))"
    using scenario_check_conflict [where ds = "[]"] by (simp add: sim_upd_id dst)
  have ck2: "check_teams sim_api ?w2 (get_organization sim_api (args_dst_org scenario_args))
               [repo_x, repo_y]
             = ([], Inr [(''t1'', [repo_x, repo_y]), (''t2'', [repo_y])])"
    by (simp add: scenario_check_ok dst)
  have fk: "fst (snd (create_forks sim_api ?w2 \<lparr>login = ''B''\<rparr> [repo_x, repo_y]))
              = Raised forbidden"
    by (simp add: scenario_defs Let_def)
  have fk': "create_forks sim_api ?w2 (get_organization sim_api (args_dst_org scenario_args))
               [repo_x, repo_y]
             = (fst (create_forks sim_api ?w2 \<lparr>login = ''B''\<rparr> [repo_x, repo_y]), Raised forbidden,
                snd (snd (create_forks sim_api ?w2 \<lparr>login = ''B''\<rparr> [repo_x, repo_y])))"
    using fk by (simp add: dst prod_eq_iff)
  from main_stage_order [OF m1] valid sel1 ne copy ck1
  have A: "fst (snd (main sim_api ?w1 scenario_args)) = Exit 1" by blast
  from main_stage_order [OF m2] valid sel2 ne copy ck2 fk'
  have B: "fst (snd (main sim_api ?w2 scenario_args)) = Raised forbidden \<and>
           (\<forall>ev \<in> set (fst (main sim_api ?w2 scenario_args)). \<not> is_team_request ev)"
    by blast
  then have "filter is_team_request (fst (main sim_api ?w2 scenario_args)) = []"
    by (simp add: filter_empty_conv)
  with A B fk show ?thesis by simp
qed

subsection \<open>find_teams_by_repos\<close>

lemma max_name_len_Inr: "src_repos \<noteq> [] \<Longrightarrow> \<exists>n. max_name_len src_repos = Inr n"
  by (simp add: max_name_len_def)

text \<open>
  Claim C8.  \<open>find_teams_by_repos\<close> raises \<open>ValueError\<close> on the empty list, where
  \<open>max\<close> has nothing to choose from, and returns an index on every other list.
\<close>

theorem find_teams_by_repos_empty:
  "(src_repos = [] \<longrightarrow> find_teams_by_repos api w src_repos = Inl ValueError) \<and>
   (src_repos \<noteq> [] \<longrightarrow> (\<exists>src_rt. find_teams_by_repos api w src_repos = Inr src_rt))"
  by (simp add: find_teams_by_repos_def max_name_len_def)

theorem find_teams_by_repos_empty_witness:
  "find_teams_by_repos sim_api (scenario []) [] = Inl ValueError \<and>
   (\<exists>src_rt. find_teams_by_repos sim_api (scenario []) [repo_x] = Inr src_rt)"
  using find_teams_by_repos_empty [of "[]" sim_api "scenario []"]
    find_teams_by_repos_empty [of "[repo_x]" sim_api "scenario []"]
  by simp

subsection \<open>create_forks\<close>

lemma create_forks_step_warn:
  assumes "now api w = (t, w1)" and "org_create_fork api w1 dst r = (Inr fk, w2)"
    and "created_at fk < t"
  shows "create_forks api w dst (r # rs) =
           (ForkRequest dst r # Warn (fork_full_name fk) (created_at fk)
              # fst (create_forks api w2 dst rs),
            snd (create_forks api w2 dst rs))"
  using assms by (simp add: case_prod_beta)

lemma create_forks_all_existing:
  assumes "w \<in> S"
    and "\<forall>s \<in> S. \<forall>r \<in> set rs. \<exists>t s1 fk s2. now api s = (t, s1) \<and>
           org_create_fork api s1 dst r = (Inr fk, s2) \<and> created_at fk < t \<and> s2 \<in> S"
  shows "\<exists>tr w'. create_forks api w dst rs = (tr, Returned, w') \<and> w' \<in> S \<and>
           filter is_fork_request tr = map (ForkRequest dst) rs \<and>
           length (filter is_warning tr) = length rs"
  using assms
proof (induction rs arbitrary: w)
  case Nil
  then show ?case by simp
next
  case (Cons r rs)
  from Cons.prems obtain t s1 fk s2 where
    st: "now api w = (t, s1)" "org_create_fork api s1 dst r = (Inr fk, s2)"
      "created_at fk < t" "s2 \<in> S"
    by (metis list.set_intros(1))
  have inv: "\<forall>s \<in> S. \<forall>r \<in> set rs. \<exists>t s1 fk s2. now api s = (t, s1) \<and>
           org_create_fork api s1 dst r = (Inr fk, s2) \<and> created_at fk < t \<and> s2 \<in> S"
    using Cons.prems(2) by simp
  from Cons.IH [OF st(4) inv] obtain tr w' where
    rest: "create_forks api s2 dst rs = (tr, Returned, w')" "w' \<in> S"
      "filter is_fork_request tr = map (ForkRequest dst) rs"
      "length (filter is_warning tr) = length rs"
    by blast
  show ?case
    using create_forks_step_warn [OF st(1,2,3), of rs] rest by simp
qed

text \<open>
  Claim C4.  When the fork that a request returns was created before the time read
  just before the request, the warning follows the request in the trace and the loop
  goes on with the next repository.  So when every repository of the list has such a
  fork (the states \<open>S\<close> that the run goes through all answer so), \<open>create_forks\<close>
  returns normally, with one request per repository in order and one warning per
  repository.
\<close>

theorem create_forks_existing_fork:
  "(\<forall>t w1 fk w2. now api w = (t, w1) \<and> org_create_fork api w1 dst r = (Inr fk, w2) \<and>
       created_at fk < t \<longrightarrow>
       create_forks api w dst (r # rs) =
         (ForkRequest dst r # Warn (fork_full_name fk) (created_at fk)
            # fst (create_forks api w2 dst rs),
          snd (create_forks api w2 dst rs))) \<and>
   (w \<in> S \<and>
    (\<forall>s \<in> S. \<forall>r' \<in> set rs. \<exists>t s1 fk s2. now api s = (t, s1) \<and>
        org_create_fork api s1 dst r' = (Inr fk, s2) \<and> created_at fk < t \<and> s2 \<in> S) \<longrightarrow>
    (\<exists>tr w'. create_forks api w dst rs = (tr, Returned, w') \<and> w' \<in> S \<and>
        filter is_fork_request tr = map (ForkRequest dst) rs \<and>
        length (filter is_warning tr) = length rs))"
  using create_forks_step_warn [of api w _ _ dst r _ _ rs]
    create_forks_all_existing [of w S rs api dst]
  by blast

theorem create_forks_existing_fork_witness:
  "forked_before \<in> forked_states \<and>
   fst (snd (create_forks sim_api forked_before org_B [repo_x, repo_y])) = Returned \<and>
   fst (create_forks sim_api forked_before org_B [repo_x, repo_y])
     = [ForkRequest org_B repo_x, Warn ''B/x'' 50, ForkRequest org_B repo_y, Warn ''B/y'' 60] \<and>
   length (filter is_warning (fst (create_forks sim_api forked_before org_B [repo_x, repo_y]))) = 2"
proof -
  have h1: "forked_before \<in> forked_states"
    by (simp add: forked_before_def forked_states_def scenario_def)
  have h2: "\<forall>s \<in> forked_states. \<forall>r' \<in> set [repo_x, repo_y]. \<exists>t s1 fk s2.
      now sim_api s = (t, s1) \<and> org_create_fork sim_api s1 org_B r' = (Inr fk, s2) \<and>
      created_at fk < t \<and> s2 \<in> forked_states"
    by (auto simp: forked_states_def scenario_defs Let_def)
  have ev: "fst (create_forks sim_api forked_before org_B [repo_x, repo_y])
     = [ForkRequest org_B repo_x, Warn ''B/x'' 50, ForkRequest org_B repo_y, Warn ''B/y'' 60]"
    by (simp add: forked_before_def scenario_defs Let_def)
  from create_forks_existing_fork [of sim_api forked_before org_B repo_x "[repo_x, repo_y]"
      forked_states] h1 h2
  obtain tr w' where "create_forks sim_api forked_before org_B [repo_x, repo_y] = (tr, Returned, w')"
    "length (filter is_warning tr) = length [repo_x, repo_y]"
    by blast
  then show ?thesis using h1 ev by simp
qed

subsection \<open>create_teams\<close>

text \<open>
  Claim C3.  In the end-to-end scenario of the spec (teams \<open>t1\<close> selected, \<open>B\<close> without
  teams, \<open>--copy-teams\<close>) the run forks \<open>x\<close> and \<open>y\<close> and then ends with
  \<open>KeyError\<close> from the \<open>debug\<close> call of \<open>create_teams\<close>: no team is requested.  And
  the request that \<open>main\<close> would have \<open>create_teams\<close> issue, with the default
  \<open>with_repos=False\<close>, names no repository.
\<close>

theorem scenario_teams_not_created:
  "fst (main sim_api (scenario []) scenario_args)
     = [ForkRequest org_B repo_x, ForkRequest org_B repo_y] \<and>
   fst (snd (main sim_api (scenario []) scenario_args)) = Raised (KeyError ''o'') \<and>
   fst (create_teams_step sim_api (scenario []) org_B False False ''t1'' [repo_x, repo_y] [])
     = [TeamRequest org_B ''t1'' None]"
  by (simp add: main_def scenario_defs fork_tool_defs create_teams_def creating_team_msg_def
      create_teams_step_def Let_def)

text \<open>
  The handler of \<open>create_teams\<close>, on a payload that has a message and a list of
  sub-errors with messages: the lookup is reached exactly when every sub-error is
  tolerated, otherwise the caught exception is raised again.
\<close>

lemma check_errors_result:
  assumes "\<forall>x \<in> set errs. x \<noteq> None"
  shows "snd (check_errors ig e errs) =
           (if \<forall>msg. Some msg \<in> set errs \<longrightarrow>
                 ig \<and> sublist ''Name has already been taken'' msg
            then None else Some e)"
  using assms
proof (induction errs)
  case Nil
  then show ?case by simp
next
  case (Cons x errs)
  then obtain msg where x: "x = Some msg" by auto
  from Cons have IH: "snd (check_errors ig e errs) =
           (if \<forall>msg. Some msg \<in> set errs \<longrightarrow>
                 ig \<and> sublist ''Name has already been taken'' msg
            then None else Some e)" by simp
  show ?case
    using IH x by (auto simp: str_in_sublist case_prod_beta)
qed

lemma handle_create_error_result:
  assumes "message d = Some m" and "errors d = Some errs" and "\<forall>x \<in> set errs. x \<noteq> None"
  shows "snd (handle_create_error api w org ig name e d) =
           (if \<forall>msg. Some msg \<in> set errs \<longrightarrow>
                 ig \<and> sublist ''Name has already been taken'' msg
            then (case find (\<lambda>t. sublist (team_name t) name) (org_get_teams api w org) of
                    None \<Rightarrow> Inl StopIteration
                  | Some t \<Rightarrow> Inr t)
            else Inl e)"
proof -
  obtain tr res where c: "check_errors ig e errs = (tr, res)"
    by (cases "check_errors ig e errs")
  with check_errors_result [OF assms(3), of ig e]
  have res: "res = (if \<forall>msg. Some msg \<in> set errs \<longrightarrow>
                 ig \<and> sublist ''Name has already been taken'' msg
            then None else Some e)" by simp
  have f: "(\<lambda>t. str_in (team_name t) name) = (\<lambda>t. sublist (team_name t) name)"
    by (simp add: str_in_sublist)
  show ?thesis
    using assms(1,2) c res by (auto simp: handle_create_error_def next_where_def f)
qed

lemma create_teams_step_handled:
  assumes "org_create_team api w org name
             (if with_repos then Some (map (\<lambda>r. login org @ ''/'' @ repo_name r) repos) else None)
           = (Inl (GithubException st d), w1)"
  shows "fst (snd (create_teams_step api w org with_repos ignore_existing name repos dst_teams)) =
           (case snd (handle_create_error api w1 org ignore_existing name (GithubException st d) d) of
              Inl e \<Rightarrow> Inl e
            | Inr t \<Rightarrow> Inr (AList.update (team_name t) t dst_teams))"
  using assms
  by (cases "handle_create_error api w1 org ignore_existing name (GithubException st d) d")
    (auto simp: create_teams_step_def Let_def split: sum.splits)

text \<open>
  One iteration of the loop, after its \<open>debug\<close> call, when the request fails with a
  \<open>GithubException\<close> that the handler tolerates: the lookup of line 151 takes the
  first team of the destination whose name is a substring of the requested name and
  \<open>dst_teams\<close> gets it under its own name; without such a team the lookup raises
  \<open>StopIteration\<close>.
\<close>

lemma create_teams_step_lookup:
  assumes "org_create_team api w org name
             (if with_repos then Some (map (\<lambda>r. login org @ ''/'' @ repo_name r) repos) else None)
           = (Inl (GithubException st d), w1)"
    and "message d = Some m" and "errors d = Some errs"
    and "ignore_existing"
    and "\<forall>x \<in> set errs. \<exists>msg. x = Some msg \<and> sublist ''Name has already been taken'' msg"
  shows "fst (snd (create_teams_step api w org with_repos ignore_existing name repos dst_teams)) =
           (case find (\<lambda>t. sublist (team_name t) name) (org_get_teams api w1 org) of
              None \<Rightarrow> Inl StopIteration
            | Some t \<Rightarrow> Inr (AList.update (team_name t) t dst_teams))"
proof -
  have some: "\<forall>x \<in> set errs. x \<noteq> None" using assms(5) by auto
  have all: "\<forall>msg. Some msg \<in> set errs \<longrightarrow>
               ignore_existing \<and> sublist ''Name has already been taken'' msg"
    using assms(4,5) by auto
  show ?thesis
    using create_teams_step_handled [OF assms(1)]
      handle_create_error_result [OF assms(2,3) some, of api w1 org ignore_existing name
        "GithubException st d"] all
    by (auto split: option.splits)
qed


text \<open>
  The same iteration on any payload that has a message and a non-empty list of
  sub-errors with messages: the existing team is looked up exactly when the caller
  opted in and every sub-error says that the name is taken; otherwise the caught
  exception is raised again.
\<close>

lemma create_teams_step_on_error:
  assumes "org_create_team api w org name
             (if with_repos then Some (map (\<lambda>r. login org @ ''/'' @ repo_name r) repos) else None)
           = (Inl (GithubException st d), w1)"
    and "message d = Some m" and "errors d = Some errs"
    and "errs \<noteq> []" and "\<forall>x \<in> set errs. x \<noteq> None"
  shows "fst (snd (create_teams_step api w org with_repos ignore_existing name repos dst_teams)) =
           (if ignore_existing \<and>
               (\<forall>msg. Some msg \<in> set errs \<longrightarrow> sublist ''Name has already been taken'' msg)
            then (case find (\<lambda>t. sublist (team_name t) name) (org_get_teams api w1 org) of
                    None \<Rightarrow> Inl StopIteration
                  | Some t \<Rightarrow> Inr (AList.update (team_name t) t dst_teams))
            else Inl (GithubException st d))"
proof -
  obtain x where "x \<in> set errs" using assms(4) by (cases errs) auto
  with assms(5) obtain msg0 where m0: "Some msg0 \<in> set errs" by (cases x) auto
  have eq: "(\<forall>msg. Some msg \<in> set errs \<longrightarrow>
               ignore_existing \<and> sublist ''Name has already been taken'' msg)
           \<longleftrightarrow> ignore_existing \<and>
               (\<forall>msg. Some msg \<in> set errs \<longrightarrow> sublist ''Name has already been taken'' msg)"
    using m0 by auto
  show ?thesis
    using create_teams_step_handled [OF assms(1)]
      handle_create_error_result [OF assms(2,3,5), of api w1 org ignore_existing name
        "GithubException st d"]
    unfolding eq by (auto split: option.splits)
qed

text \<open>
  Claim C6.  The destination has a team \<open>t1\<close>, so that a request for a team \<open>t1\<close> is
  refused because the name is taken, and the caller of \<open>create_teams\<close> has opted in:
  the call ends with \<open>KeyError\<close> from its \<open>debug\<close> call, before any request and any
  lookup.  In the handler itself, a payload with an empty list of sub-errors lets the
  existing team be reused although the caller has not opted in, and a payload without
  the key \<open>errors\<close> ends the handler with \<open>KeyError\<close>, not with the caught exception.
\<close>

theorem create_teams_existing_team_fails:
  "fst (org_create_team sim_api (scenario [team_named ''t1'']) org_B ''t1'' None)
     = Inl (GithubException 422 name_taken) \<and>
   create_teams sim_api (scenario [team_named ''t1'']) org_B [(''t1'', [repo_x])] False True
     = ([], Inl (KeyError ''o''), scenario [team_named ''t1'']) \<and>
   fst (snd (create_teams_step sim_api
          ((scenario [team_named ''t1''])
             \<lparr>sim_refusal := \<lparr>message = Some ''Validation Failed'', errors = Some []\<rparr>\<rparr>)
          org_B False False ''t1'' [repo_x] []))
     = Inr [(''t1'', team_named ''t1'')] \<and>
   fst (snd (create_teams_step sim_api
          ((scenario [team_named ''t1''])
             \<lparr>sim_refusal := \<lparr>message = Some ''Forbidden'', errors = None\<rparr>\<rparr>)
          org_B False True ''t1'' [repo_x] []))
     = Inl (KeyError ''errors'')"
  by (simp add: scenario_defs team_named_def create_teams_def creating_team_msg_def
      create_teams_step_def handle_create_error_def next_where_def Let_def)

subsection \<open>github_list_repos\<close>

text \<open>
  Claim C10, amended.  With \<open>--teams\<close> and \<open>--hide H\<close>, \<open>H\<close> not empty: the line of a
  repository shows its team names without the first occurrence of \<open>H\<close>; the lines of
  the repositories before the first one without a team named \<open>H\<close> are printed, and at
  that repository the run ends with \<open>ValueError\<close>.
\<close>

theorem list_repos_hide:
  assumes "opt_teams opts" and "opt_hide opts = Some H" and "H \<noteq> []"
  shows "list_repos iter_teams opts repos =
           (map (\<lambda>r. repo_name r @ '' : '' @
                        join [CHR 0x09] (remove1 H (map team_name (iter_teams r))))
              (takeWhile (\<lambda>r. H \<in> set (map team_name (iter_teams r))) repos),
            if \<forall>r \<in> set repos. H \<in> set (map team_name (iter_teams r)) then Returned
            else Raised ValueError)"
  using assms by (induction repos) (auto simp: hide_team_def list_remove_def)

theorem list_repos_hide_witness:
  "list_repos org_A_teams \<lparr>opt_organisation = ''A'', opt_teams = True, opt_hide = Some ''t1''\<rparr>
     [repo_x, repo_y, repo_z] = ([''x : '', ''y : t2''], Raised ValueError) \<and>
   list_repos org_A_teams \<lparr>opt_organisation = ''A'', opt_teams = True, opt_hide = Some ''t1''\<rparr>
     [repo_x, repo_y] = ([''x : '', ''y : t2''], Returned)"
proof -
  let ?o = "\<lparr>opt_organisation = ''A'', opt_teams = True, opt_hide = Some ''t1''\<rparr>"
  have h1: "opt_teams ?o" by simp
  have h2: "opt_hide ?o = Some ''t1''" by simp
  have h3: "''t1'' \<noteq> []" by simp
  show ?thesis
    using list_repos_hide [OF h1 h2 h3, of org_A_teams "[repo_x, repo_y, repo_z]"]
      list_repos_hide [OF h1 h2 h3, of org_A_teams "[repo_x, repo_y]"]
    by (simp add: org_A_teams_def repo_x_def repo_y_def repo_z_def team_t1_def team_t2_def)
qed

text \<open>
  Claim C10 as stated fails for the empty name: \<open>--hide ''\<close> is false in
  \<open>if opt.hide\<close>, nothing is removed and nothing raises.
\<close>

theorem list_repos_hide_counterexample:
  "'''' \<notin> set (map team_name (org_A_teams repo_x)) \<and>
   list_repos org_A_teams \<lparr>opt_organisation = ''A'', opt_teams = True, opt_hide = Some ''''\<rparr>
     [repo_x] = ([''x : t1''], Returned)"
  by (simp add: org_A_teams_def repo_x_def team_t1_def hide_team_def)

end
